theory Spec2Isabelle
  imports Main
begin

section \<open>Python string operations used by the log watcher\<close>

text \<open>
  A Python \<open>str\<close> is modelled as a \<open>string\<close> whose characters are the code points
  below 256. On that range \<open>str.isspace\<close> holds for the characters listed in
  \<open>whitespace\<close>, and \<open>str.splitlines\<close> breaks at the characters listed in
  \<open>line_boundaries\<close> (with CR LF counted as one boundary).
\<close>

definition whitespace :: "char list" where
  "whitespace = [CHR 0x09, CHR 0x0A, CHR 0x0B, CHR 0x0C, CHR 0x0D,
                 CHR 0x1C, CHR 0x1D, CHR 0x1E, CHR 0x1F, CHR 0x20, CHR 0x85, CHR 0xA0]"

definition isspace :: "char \<Rightarrow> bool" where
  "isspace c = (c \<in> set whitespace)"

definition lstrip :: "string \<Rightarrow> string" where
  "lstrip s = dropWhile isspace s"

definition rstrip :: "string \<Rightarrow> string" where
  "rstrip s = rev (dropWhile isspace (rev s))"

text \<open>\<open>s.strip()\<close>\<close>

definition strip :: "string \<Rightarrow> string" where
  "strip s = rstrip (lstrip s)"

text \<open>\<open>s.strip(chars)\<close>\<close>

definition strip_chars :: "char list \<Rightarrow> string \<Rightarrow> string" where
  "strip_chars cs s =
     rev (dropWhile (\<lambda>c. c \<in> set cs) (rev (dropWhile (\<lambda>c. c \<in> set cs) s)))"

text \<open>\<open>s.startswith(p)\<close>\<close>

fun startswith :: "string \<Rightarrow> string \<Rightarrow> bool" where
  "startswith s [] = True"
| "startswith [] (p # ps) = False"
| "startswith (c # s) (p # ps) = (c = p \<and> startswith s ps)"

text \<open>\<open>sep.join(xs)\<close>\<close>

fun join :: "string \<Rightarrow> string list \<Rightarrow> string" where
  "join sep [] = []"
| "join sep [x] = x"
| "join sep (x # y # ys) = x @ sep @ join sep (y # ys)"

definition line_boundaries :: "char list" where
  "line_boundaries = [CHR 0x0A, CHR 0x0B, CHR 0x0C, CHR 0x0D,
                      CHR 0x1C, CHR 0x1D, CHR 0x1E, CHR 0x85]"

text \<open>
  \<open>s.splitlines()\<close>, with the line read so far as an accumulator: a line ends at a
  boundary, and text after the last boundary is a line only when it is not empty.
\<close>

fun splitlines_acc :: "string \<Rightarrow> string \<Rightarrow> string list" where
  "splitlines_acc acc [] = (if acc = [] then [] else [acc])"
| "splitlines_acc acc (c # cs) =
     (if c = CHR 0x0D \<and> cs \<noteq> [] \<and> hd cs = CHR 0x0A then acc # splitlines_acc [] (tl cs)
      else if c \<in> set line_boundaries then acc # splitlines_acc [] cs
      else splitlines_acc (acc @ [c]) cs)"

definition splitlines :: "string \<Rightarrow> string list" where
  "splitlines s = splitlines_acc [] s"

definition digits :: "char list" where
  "digits = ''0123456789''"

text \<open>\<open>\d\<close> of the \<open>re\<close> module, on code points below 256.\<close>

definition isdigit :: "char \<Rightarrow> bool" where
  "isdigit c = (c \<in> set digits)"

definition digit_val :: "char \<Rightarrow> nat" where
  "digit_val c = length (takeWhile (\<lambda>d. d \<noteq> c) digits)"

text \<open>\<open>int(s)\<close> for a string of decimal digits.\<close>

definition int_of_digits :: "string \<Rightarrow> nat" where
  "int_of_digits s = foldl (\<lambda>n c. 10 * n + digit_val c) 0 s"

text \<open>
  Case folding of \<open>re.IGNORECASE\<close>: the patterns of this program contain ASCII letters
  only, and below 256 an ASCII letter matches exactly its two ASCII cases.
\<close>

definition ascii_lower :: "char \<Rightarrow> char" where
  "ascii_lower c =
     (case map_of (zip ''ABCDEFGHIJKLMNOPQRSTUVWXYZ'' ''abcdefghijklmnopqrstuvwxyz'') c of
        Some l \<Rightarrow> l
      | None \<Rightarrow> c)"

text \<open>
  \<open>re.search\<close> of a literal (given in lower case) in \<open>s\<close>, ignoring case: the literal
  matches at some position of \<open>s\<close>.
\<close>

fun search_icase :: "string \<Rightarrow> string \<Rightarrow> bool" where
  "search_icase p [] = (p = [])"
| "search_icase p (c # cs) =
     (startswith (map ascii_lower (c # cs)) p \<or> search_icase p cs)"

section \<open>The log tailer: \<open>LogWatcher.tail_log\<close>\<close>

text \<open>
  \<open>error_start_pattern\<close> is
  \<open>re.compile(r'(PHP (Fatal error|Warning|Notice)|\[error\])', re.IGNORECASE)\<close>;
  \<open>error_start_pattern_search line\<close> says whether \<open>search\<close> finds a match.
\<close>

definition error_start_pattern_search :: "string \<Rightarrow> bool" where
  "error_start_pattern_search line =
     (search_icase ''php fatal error'' line \<or> search_icase ''php warning'' line \<or>
      search_icase ''php notice'' line \<or> search_icase ''[error]'' line)"

text \<open>
  The tailer polls a file that another process appends to. The model keeps a clock in
  milliseconds and the lines not yet read, each with the time it is written to the file
  (the text is what \<open>readline\<close> returns for it, line end included). Reading takes no time
  and \<open>time.sleep(d)\<close> advances the clock by exactly \<open>d\<close>. \<open>current_trace\<close> is the local
  variable of that name.
\<close>

record tailer =
  clock :: nat
  pending :: "(nat \<times> string) list"
  current_trace :: "string list"

text \<open>\<open>f.readline()\<close>: the next line if it has been written, else the empty string.\<close>

definition readline :: "tailer \<Rightarrow> string \<times> tailer" where
  "readline st =
     (case pending st of
        [] \<Rightarrow> ([], st)
      | (a, l) # rest \<Rightarrow> if a \<le> clock st then (l, st\<lparr>pending := rest\<rparr>) else ([], st))"

definition sleep :: "nat \<Rightarrow> tailer \<Rightarrow> tailer" where
  "sleep d st = st\<lparr>clock := clock st + d\<rparr>"

text \<open>
  The two nested \<open>while True\<close> loops of \<open>tail_log\<close>. The generator never returns, so the
  loops take fuel: one unit per iteration of either loop, and the result is the list of
  the traces yielded before the fuel ends. \<open>scanning\<close> is the outer loop, \<open>collecting\<close>
  the inner one, with \<open>fcntl_start_time\<close> as its second argument and
  \<open>fcntl_wait_time = 2\<close> seconds.
\<close>

fun scanning :: "nat \<Rightarrow> tailer \<Rightarrow> string list"
  and collecting :: "nat \<Rightarrow> nat \<Rightarrow> tailer \<Rightarrow> string list" where
  "scanning 0 st = []"
| "scanning (Suc n) st =
     (case readline st of (line, st1) \<Rightarrow>
        if line = [] then scanning n (sleep 500 st1)
        else
          let line = strip line;
              flush = error_start_pattern_search line \<and> current_trace st1 \<noteq> [];
              out = (if flush then [join ''\<newline>'' (current_trace st1)] else []);
              st2 = (if flush then st1\<lparr>current_trace := []\<rparr> else st1);
              st3 = st2\<lparr>current_trace := current_trace st2 @ [line]\<rparr>
          in out @ collecting n (clock st3) st3)"
| "collecting 0 fcntl_start_time st = []"
| "collecting (Suc n) fcntl_start_time st =
     (case readline st of (next_line, st1) \<Rightarrow>
        if next_line = [] then
          if 2000 \<le> clock st1 - fcntl_start_time
          then join ''\<newline>'' (current_trace st1) # scanning n (st1\<lparr>current_trace := []\<rparr>)
          else collecting n fcntl_start_time (sleep 200 st1)
        else
          let next_line = strip next_line;
              st2 = st1\<lparr>current_trace := current_trace st1 @ [next_line]\<rparr>
          in collecting n (clock st2) st2)"

text \<open>
  What \<open>tail_log\<close> does before the loops: it reads \<open>log_file\<close> from the configuration,
  tests \<open>os.path.isfile\<close>, opens the file and seeks to its end. A path is a regular file
  the process may read, a regular file it may not read, or no regular file.
\<close>

datatype path_kind = Readable_file | Unreadable_file | No_file

datatype error = PermissionError | CalledProcessError | OSError | ValueError

definition isfile :: "path_kind \<Rightarrow> bool" where
  "isfile k = (k = Readable_file \<or> k = Unreadable_file)"

text \<open>
  \<open>tail_log\<close>: \<open>log_file\<close> is \<open>self.config.get("log_file")\<close>, \<open>fs\<close> the file system,
  \<open>now\<close> the time of the call and \<open>appended\<close> the lines written to the file from then
  on. An exception that leaves the generator is \<open>Inl\<close>.
\<close>

definition tail_log ::
  "nat \<Rightarrow> string option \<Rightarrow> (string \<Rightarrow> path_kind) \<Rightarrow> nat \<Rightarrow> (nat \<times> string) list
   \<Rightarrow> error + string list" where
  "tail_log fuel log_file fs now appended =
     (case log_file of
        None \<Rightarrow> Inr []
      | Some p \<Rightarrow>
          if p = [] \<or> \<not> isfile (fs p) then Inr []
          else if fs p = Unreadable_file then Inl PermissionError
          else Inr (scanning fuel \<lparr>clock = now, pending = appended, current_trace = []\<rparr>))"

section \<open>The environment of the enrichment engine\<close>

text \<open>
  \<open>subprocess.check_output\<close> returns the standard output of a process that exits with
  status 0, raises \<open>CalledProcessError\<close> when it exits with another status, and raises an
  \<open>OSError\<close> when the process cannot be started (the executable or the working directory
  is missing).
\<close>

datatype process = Completed string | Exited_nonzero | Not_started

text \<open>A command run by the shell: whether it succeeded, and what it printed (standard
  output and standard error together, as \<open>subprocess.getoutput\<close> collects them).\<close>

datatype cmd_result = Cmd (succeeded: bool) (printed: string)

text \<open>
  Everything the enrichment engine asks of the operating system, as functions of the
  arguments the program passes:
  \<^item> \<open>sh_grep_l pattern dir\<close>: what \<open>grep -l 'pattern' dir/*\<close> prints;
  \<^item> \<open>sh_cd dir\<close> and \<open>sh_git_config_remote dir\<close>: the commands \<open>cd 'dir'\<close> and
    \<open>git config --get remote.origin.url\<close> (run in \<open>dir\<close>);
  \<^item> \<open>git_rev_parse cwd\<close>: \<open>git rev-parse --show-toplevel\<close>;
  \<^item> \<open>git_blame_porcelain cwd n rel_path\<close>: \<open>git blame -L n,n --porcelain rel_path\<close>;
  \<^item> \<open>git_diff cwd rel_path\<close>: \<open>git diff rel_path\<close>;
  \<^item> \<open>abspath\<close> and \<open>relpath\<close>: \<open>os.path.abspath\<close> and \<open>os.path.relpath\<close> (both depend
    on the working directory of the process);
  \<^item> \<open>getmtime_isoformat p\<close>:
    \<open>datetime.datetime.fromtimestamp(os.path.getmtime(p)).isoformat()\<close>, \<open>None\<close> when
    \<open>getmtime\<close> raises \<open>OSError\<close>.
  Paths put between single quotes in a shell command are taken to have no single quote.
\<close>

record env =
  sh_grep_l :: "string \<Rightarrow> string \<Rightarrow> string"
  sh_cd :: "string \<Rightarrow> cmd_result"
  sh_git_config_remote :: "string \<Rightarrow> cmd_result"
  git_rev_parse :: "string \<Rightarrow> process"
  git_blame_porcelain :: "string \<Rightarrow> nat \<Rightarrow> string \<Rightarrow> process"
  git_diff :: "string \<Rightarrow> string \<Rightarrow> process"
  abspath :: "string \<Rightarrow> string"
  relpath :: "string \<Rightarrow> string \<Rightarrow> string"
  getmtime_isoformat :: "string \<Rightarrow> string option"

text \<open>\<open>subprocess.getoutput\<close> removes one trailing newline from what the shell printed.\<close>

definition getoutput :: "string \<Rightarrow> string" where
  "getoutput out = (if out \<noteq> [] \<and> last out = CHR 0x0A then butlast out else out)"

text \<open>What the shell prints for \<open>a && b || c\<close>: \<open>b\<close> runs when \<open>a\<close> succeeds, and \<open>c\<close>
  runs when \<open>a && b\<close> fails.\<close>

definition sh_and_or :: "cmd_result \<Rightarrow> cmd_result \<Rightarrow> cmd_result \<Rightarrow> string" where
  "sh_and_or a b c =
     printed a @
     (if succeeded a then printed b @ (if succeeded b then [] else printed c)
      else printed c)"

text \<open>\<open>os.path.dirname\<close> of \<open>posixpath\<close>: the text up to the last slash, without its
  trailing slashes unless it consists of slashes only.\<close>

definition dirname :: "string \<Rightarrow> string" where
  "dirname p =
     (let head = rev (dropWhile (\<lambda>c. c \<noteq> CHR ''/'') (rev p))
      in if head \<noteq> [] \<and> \<not> list_all (\<lambda>c. c = CHR ''/'') head
         then rev (dropWhile (\<lambda>c. c = CHR ''/'') (rev head))
         else head)"

section \<open>The caches\<close>

text \<open>
  \<open>cachetools.TTLCache(maxsize, ttl)\<close>, by its documented contract: an item is visible
  until its expiry time; storing an item first drops the expired ones and then, when the
  cache is full, the least recently used one. \<open>items\<close> holds key, value and expiry time,
  least recently used first. \<open>now\<close> is the reading of the cache's timer, in seconds.
\<close>

record 'v ttl_cache =
  maxsize :: nat
  ttl :: nat
  items :: "(string \<times> 'v \<times> nat) list"

text \<open>\<open>key in cache\<close> and \<open>cache[key]\<close>: the value, when the item is there and not expired.\<close>

definition ttl_lookup :: "nat \<Rightarrow> 'v ttl_cache \<Rightarrow> string \<Rightarrow> 'v option" where
  "ttl_lookup now c k =
     (case map_of (items c) k of
        None \<Rightarrow> None
      | Some (v, expires) \<Rightarrow> if now < expires then Some v else None)"

text \<open>Reading \<open>cache[key]\<close> makes the item the most recently used one.\<close>

definition ttl_touch :: "'v ttl_cache \<Rightarrow> string \<Rightarrow> 'v ttl_cache" where
  "ttl_touch c k =
     c\<lparr>items := filter (\<lambda>i. fst i \<noteq> k) (items c) @ filter (\<lambda>i. fst i = k) (items c)\<rparr>"

text \<open>\<open>cache[key] = value\<close>\<close>

definition ttl_setitem :: "nat \<Rightarrow> 'v ttl_cache \<Rightarrow> string \<Rightarrow> 'v \<Rightarrow> 'v ttl_cache" where
  "ttl_setitem now c k v =
     (let live = filter (\<lambda>i. now < snd (snd i)) (items c);
          others = filter (\<lambda>i. fst i \<noteq> k) live;
          room = (if length others < maxsize c then others else tl others)
      in c\<lparr>items := room @ [(k, v, now + ttl c)]\<rparr>)"

section \<open>Blame and diff: \<open>LogWatcher.get_git_blame\<close>\<close>

text \<open>The dictionary \<open>blame\<close> built by \<open>get_git_blame\<close>.\<close>

record blame_info =
  author :: "string option"
  email :: "string option"
  commit :: "string option"
  summary :: "string option"
  is_local_changes :: bool

text \<open>\<open>re.match(r"^0{8,40}", line)\<close>: the line begins with at least eight zeros.\<close>

definition zero_commit_match :: "string \<Rightarrow> bool" where
  "zero_commit_match line = (8 \<le> length (takeWhile (\<lambda>c. c = CHR ''0'') line))"

text \<open>\<open>re.match(r"^[a-f0-9]{40}", line)\<close>\<close>

definition commit_id_match :: "string \<Rightarrow> bool" where
  "commit_id_match line =
     (40 \<le> length line \<and> list_all (\<lambda>c. c \<in> set ''abcdef0123456789'') (take 40 line))"

text \<open>\<open>line.split()[0]\<close>, for a line that has a first word.\<close>

definition first_word :: "string \<Rightarrow> string" where
  "first_word line = takeWhile (\<lambda>c. \<not> isspace c) (lstrip line)"

text \<open>The body of the loop over \<open>blame_output.splitlines()\<close>.\<close>

definition parse_blame_line :: "blame_info \<Rightarrow> string \<Rightarrow> blame_info" where
  "parse_blame_line blame line =
     (let blame = (if zero_commit_match line then blame\<lparr>is_local_changes := True\<rparr> else blame)
      in if startswith line ''author '' then blame\<lparr>author := Some (drop 7 line)\<rparr>
         else if startswith line ''author-mail ''
           then blame\<lparr>email := Some (strip_chars ''<>'' (drop 12 line))\<rparr>
         else if startswith line ''summary '' then blame\<lparr>summary := Some (drop 8 line)\<rparr>
         else if commit_id_match line then blame\<lparr>commit := Some (take 8 (first_word line))\<rparr>
         else blame)"

text \<open>
  \<open>hunk_header_pattern.match(diff_line)\<close> for
  \<open>^@@ -\d+(?:,\d+)? \+(\d+)(?:,(\d+))? @@\<close>: the two groups of a match. Each \<open>\d+\<close> takes
  all the digits there are, and an optional part is taken when a comma and a digit follow.
\<close>

definition hunk_header_pattern_match :: "string \<Rightarrow> (string \<times> string option) option" where
  "hunk_header_pattern_match diff_line =
     (if \<not> startswith diff_line ''@@ -'' then None
      else
        let r0 = drop 4 diff_line;
            r1 = dropWhile isdigit r0
        in if takeWhile isdigit r0 = [] then None
           else
             let r2 = (if startswith r1 '','' \<and> takeWhile isdigit (drop 1 r1) \<noteq> []
                       then dropWhile isdigit (drop 1 r1) else r1)
             in if \<not> startswith r2 '' +'' then None
                else
                  let r3 = drop 2 r2;
                      g1 = takeWhile isdigit r3;
                      r4 = dropWhile isdigit r3
                  in if g1 = [] then None
                     else
                       let counted = (startswith r4 '','' \<and> takeWhile isdigit (drop 1 r4) \<noteq> []);
                           g2 = (if counted then Some (takeWhile isdigit (drop 1 r4)) else None);
                           r5 = (if counted then dropWhile isdigit (drop 1 r4) else r4)
                       in if startswith r5 '' @@'' then Some (g1, g2) else None)"

text \<open>
  The loop over \<open>diff_output.splitlines()\<close> that finds \<open>line_diff\<close>: the arguments are
  \<open>line_number\<close>, the lines still to visit and \<open>current_line\<close>; the result is \<open>line_diff\<close>
  when the loop ends. \<open>in_hunk\<close> is set to \<open>True\<close> at the start of every iteration, so
  the value a hunk header gives it is never read.
\<close>

fun find_diff_line :: "nat \<Rightarrow> string list \<Rightarrow> nat \<Rightarrow> string option" where
  "find_diff_line line_number [] current_line = None"
| "find_diff_line line_number (diff_line # rest) current_line =
     (let in_hunk = True
      in case hunk_header_pattern_match diff_line of
           Some (g1, g2) \<Rightarrow>
             let start_line = int_of_digits g1;
                 line_count = (case g2 of Some d \<Rightarrow> int_of_digits d | None \<Rightarrow> 1);
                 in_hunk = (start_line \<le> line_number \<and> line_number < start_line + line_count)
             in find_diff_line line_number rest start_line
         | None \<Rightarrow>
             if in_hunk \<and> (startswith diff_line ''+'' \<or> startswith diff_line ''-'' \<or>
                            startswith diff_line '' '')
             then if current_line = line_number then Some diff_line
                  else find_diff_line line_number rest
                         (if \<not> startswith diff_line ''-'' then current_line + 1 else current_line)
             else find_diff_line line_number rest current_line)"

text \<open>
  \<open>get_git_blame(file_path, line_number, repo_path)\<close>. \<open>Inr None\<close> is the result \<open>None\<close>,
  \<open>Inl e\<close> an exception that leaves the method. \<open>os.path.relpath\<close> raises \<open>ValueError\<close>
  for an empty path; the handler catches \<open>CalledProcessError\<close> only.
\<close>

definition get_git_blame ::
  "env \<Rightarrow> string \<Rightarrow> nat \<Rightarrow> string option \<Rightarrow> error + blame_info option" where
  "get_git_blame env file_path line_number repo_path =
     (case repo_path of
        None \<Rightarrow> Inr None
      | Some root \<Rightarrow>
          if root = [] then Inr None
          else if file_path = [] then Inl ValueError
          else
            (let rel_path = relpath env file_path root
             in (case git_blame_porcelain env root line_number rel_path of
                   Exited_nonzero \<Rightarrow> Inr None
                 | Not_started \<Rightarrow> Inl OSError
                 | Completed blame_output \<Rightarrow>
                     (let blame = foldl parse_blame_line
                            \<lparr>author = None, email = None, commit = None, summary = None,
                             is_local_changes = False\<rparr>
                            (splitlines blame_output)
                      in if is_local_changes blame then
                           (case git_diff env root rel_path of
                              Exited_nonzero \<Rightarrow> Inr None
                            | Not_started \<Rightarrow> Inl OSError
                            | Completed diff_output \<Rightarrow>
                                (let line_diff =
                                       find_diff_line line_number (splitlines diff_output) 0
                                 in (case getmtime_isoformat env file_path of
                                       None \<Rightarrow> Inl OSError
                                     | Some last_modified \<Rightarrow>
                                         Inr (Some (blame\<lparr>summary := Some
                                           (''[Uncommitted changes] Last modified: '' @
                                            last_modified @
                                            (case line_diff of
                                               None \<Rightarrow> []
                                             | Some d \<Rightarrow>
                                                 if d \<noteq> [] then '' | Diff line: '' @ strip d
                                                 else []))\<rparr>)))))
                         else Inr (Some blame)))))"

section \<open>Virtual hosts: \<open>LogWatcher.find_vhost_for_path\<close>\<close>

text \<open>The state of a \<open>LogWatcher\<close> that enrichment uses: its four caches.\<close>

record watcher =
  vhost_cache :: "string \<rightharpoonup> string option"
  git_root_cache :: "string option ttl_cache"
  git_remote_cache :: "string ttl_cache"
  git_blame_cache :: "blame_info option ttl_cache"

text \<open>\<open>__init__\<close>: the caches of a new watcher.\<close>

definition init_watcher :: watcher where
  "init_watcher =
     \<lparr>vhost_cache = Map.empty,
      git_root_cache = \<lparr>maxsize = 1000, ttl = 86400, items = []\<rparr>,
      git_remote_cache = \<lparr>maxsize = 1000, ttl = 86400, items = []\<rparr>,
      git_blame_cache = \<lparr>maxsize = 5000, ttl = 86400, items = []\<rparr>\<rparr>"

text \<open>
  The \<open>while True\<close> loop of \<open>find_vhost_for_path\<close>, from a value of \<open>search_path\<close>; the
  result is \<open>found_vhost\<close> when the loop ends. The definition does not presuppose that the
  loop ends: \<open>None\<close> stands for a loop that runs forever.
\<close>

partial_function (option) find_vhost_walk :: "env \<Rightarrow> string \<Rightarrow> string \<Rightarrow> string option option"
  where
  "find_vhost_walk env vhost_dir search_path =
     (let result = strip (getoutput (sh_grep_l env search_path vhost_dir))
      in if result \<noteq> [] then Some (Some result)
         else
           let parent_path = dirname search_path
           in if parent_path = search_path \<or> parent_path = ''/'' then Some None
              else find_vhost_walk env vhost_dir parent_path)"

declare find_vhost_walk.simps [code]

text \<open>\<open>find_vhost_for_path(file_path, vhost_dir)\<close>: the result and the watcher after the
  call, when the call returns.\<close>

definition find_vhost_for_path ::
  "env \<Rightarrow> watcher \<Rightarrow> string \<Rightarrow> string \<Rightarrow> (string option \<times> watcher) option" where
  "find_vhost_for_path env st file_path vhost_dir =
     (case vhost_cache st file_path of
        Some cached \<Rightarrow> Some (cached, st)
      | None \<Rightarrow>
          (case find_vhost_walk env vhost_dir (dirname file_path) of
             None \<Rightarrow> None
           | Some found_vhost \<Rightarrow>
               Some (found_vhost,
                     st\<lparr>vhost_cache := (vhost_cache st)(file_path \<mapsto> found_vhost)\<rparr>)))"

section \<open>Enrichment: \<open>LogWatcher.get_project_info\<close>\<close>

text \<open>
  \<open>re.search(r'in (.+?) on line (\d+)', error_line)\<close>. \<open>lazy_group\<close> is the lazy group
  \<open>(.+?)\<close> with the characters it has taken so far: it stops at the first place where
  \<open> on line \<close> and a digit follow, and cannot pass a newline. \<open>search_in_on_line\<close> tries
  the positions of the text from left to right and gives the two groups of the first match.
\<close>

fun lazy_group :: "string \<Rightarrow> string \<Rightarrow> (string \<times> string) option" where
  "lazy_group taken [] = None"
| "lazy_group taken (c # cs) =
     (if startswith (c # cs) '' on line '' \<and> takeWhile isdigit (drop 9 (c # cs)) \<noteq> []
      then Some (taken, takeWhile isdigit (drop 9 (c # cs)))
      else if c = CHR 0x0A then None
      else lazy_group (taken @ [c]) cs)"

definition match_in_on_line :: "string \<Rightarrow> (string \<times> string) option" where
  "match_in_on_line s =
     (if startswith s ''in '' then
        (case drop 3 s of
           [] \<Rightarrow> None
         | c # cs \<Rightarrow> if c = CHR 0x0A then None else lazy_group [c] cs)
      else None)"

fun search_in_on_line :: "string \<Rightarrow> (string \<times> string) option" where
  "search_in_on_line [] = None"
| "search_in_on_line (c # cs) =
     (case match_in_on_line (c # cs) of
        Some groups \<Rightarrow> Some groups
      | None \<Rightarrow> search_in_on_line cs)"

text \<open>\<open>str(n)\<close>, as the f-string of \<open>blame_key\<close> formats \<open>line_number\<close>.\<close>

fun str_of_nat :: "nat \<Rightarrow> string" where
  "str_of_nat n =
     (if n < 10 then [digits ! n] else str_of_nat (n div 10) @ [digits ! (n mod 10)])"

text \<open>
  The two version-control queries of \<open>get_project_info\<close>:
  \<open>git rev-parse --show-toplevel\<close> through \<open>check_output\<close>, with \<open>CalledProcessError\<close>
  handled, and
  \<open>cd 'dir_path' && git config --get remote.origin.url || echo 'unknown'\<close> through
  \<open>getoutput\<close>.
\<close>

definition git_root_query :: "env \<Rightarrow> string \<Rightarrow> error + string option" where
  "git_root_query env dir_path =
     (case git_rev_parse env dir_path of
        Completed out \<Rightarrow> Inr (Some (strip out))
      | Exited_nonzero \<Rightarrow> Inr None
      | Not_started \<Rightarrow> Inl OSError)"

definition git_remote_query :: "env \<Rightarrow> string \<Rightarrow> string" where
  "git_remote_query env dir_path =
     strip (getoutput (sh_and_or (sh_cd env dir_path) (sh_git_config_remote env dir_path)
                         (Cmd True ''unknown\<newline>'')))"

text \<open>
  The three cached steps of \<open>get_project_info\<close>, in the order of the method:
  \<open>root_of\<close> (the block on \<open>git_root_cache\<close>), \<open>remote_of\<close> (the block on
  \<open>git_remote_cache\<close>) and \<open>blame_of\<close> (the block on \<open>git_blame_cache\<close>, which calls
  \<open>get_git_blame\<close> and stores its result before it looks the key up).
\<close>

definition root_of ::
  "env \<Rightarrow> nat \<Rightarrow> watcher \<Rightarrow> string \<Rightarrow> (error + string option) \<times> watcher" where
  "root_of env now st dir_path =
     (case ttl_lookup now (git_root_cache st) dir_path of
        Some repo_root \<Rightarrow>
          (Inr repo_root, st\<lparr>git_root_cache := ttl_touch (git_root_cache st) dir_path\<rparr>)
      | None \<Rightarrow>
          (case git_root_query env dir_path of
             Inl e \<Rightarrow> (Inl e, st)
           | Inr repo_root \<Rightarrow>
               (Inr repo_root,
                st\<lparr>git_root_cache := ttl_setitem now (git_root_cache st) dir_path repo_root\<rparr>)))"

definition remote_of :: "env \<Rightarrow> nat \<Rightarrow> watcher \<Rightarrow> string \<Rightarrow> string \<times> watcher" where
  "remote_of env now st dir_path =
     (case ttl_lookup now (git_remote_cache st) dir_path of
        Some git_remote \<Rightarrow>
          (git_remote, st\<lparr>git_remote_cache := ttl_touch (git_remote_cache st) dir_path\<rparr>)
      | None \<Rightarrow>
          (let git_remote = git_remote_query env dir_path
           in (git_remote,
               st\<lparr>git_remote_cache :=
                    ttl_setitem now (git_remote_cache st) dir_path git_remote\<rparr>)))"

definition blame_of ::
  "env \<Rightarrow> nat \<Rightarrow> watcher \<Rightarrow> string \<Rightarrow> nat \<Rightarrow> string option
   \<Rightarrow> (error + blame_info option) \<times> watcher" where
  "blame_of env now st file_path line_number repo_root =
     (let blame_key = file_path @ '':'' @ str_of_nat line_number
      in (case get_git_blame env file_path line_number repo_root of
            Inl e \<Rightarrow> (Inl e, st)
          | Inr blame \<Rightarrow>
              (let st1 = st\<lparr>git_blame_cache :=
                             ttl_setitem now (git_blame_cache st) blame_key blame\<rparr>
               in (case ttl_lookup now (git_blame_cache st1) blame_key of
                     Some cached \<Rightarrow>
                       (Inr cached,
                        st1\<lparr>git_blame_cache := ttl_touch (git_blame_cache st1) blame_key\<rparr>)
                   | None \<Rightarrow>
                       (case get_git_blame env file_path line_number repo_root of
                          Inl e \<Rightarrow> (Inl e, st1)
                        | Inr again \<Rightarrow>
                            (Inr again,
                             st1\<lparr>git_blame_cache :=
                                   ttl_setitem now (git_blame_cache st1) blame_key again\<rparr>))))))"

text \<open>The dictionary \<open>get_project_info\<close> returns; \<open>detail_file\<close> is its key \<open>"file"\<close>,
  and so on for \<open>"line"\<close>, \<open>"vhost"\<close>, \<open>"git_remote"\<close>, \<open>"error_line"\<close> and \<open>"blame"\<close>.\<close>

record project_detail =
  detail_file :: string
  detail_line :: nat
  detail_vhost :: "string option"
  detail_git_remote :: string
  detail_error_line :: string
  detail_blame :: "blame_info option"

text \<open>
  \<open>get_project_info(error_line)\<close> called at cache time \<open>now\<close>: the result (\<open>Inr None\<close>
  for \<open>None\<close>, \<open>Inl e\<close> for an exception that leaves the method) and the watcher after the
  call; \<open>None\<close> when the call does not return.
\<close>

definition get_project_info ::
  "env \<Rightarrow> nat \<Rightarrow> watcher \<Rightarrow> string \<Rightarrow> ((error + project_detail option) \<times> watcher) option"
  where
  "get_project_info env now st error_line =
     (case search_in_on_line error_line of
        None \<Rightarrow> Some (Inr None, st)
      | Some (g1, g2) \<Rightarrow>
          (let file_path = strip g1;
               line_number = int_of_digits g2;
               dir_path = abspath env (dirname file_path)
           in (case find_vhost_for_path env st file_path ''/etc/apache2/sites-enabled'' of
                 None \<Rightarrow> None
               | Some (vhost, st1) \<Rightarrow>
                   (case root_of env now st1 dir_path of
                      (Inl e, st2) \<Rightarrow> Some (Inl e, st2)
                    | (Inr repo_root, st2) \<Rightarrow>
                        (case remote_of env now st2 dir_path of
                           (git_remote, st3) \<Rightarrow>
                             (case blame_of env now st3 file_path line_number repo_root of
                                (Inl e, st4) \<Rightarrow> Some (Inl e, st4)
                              | (Inr blame, st4) \<Rightarrow>
                                  Some (Inr (Some
                                    \<lparr>detail_file = file_path,
                                     detail_line = line_number,
                                     detail_vhost =
                                       (case vhost of
                                          None \<Rightarrow> None
                                        | Some v \<Rightarrow> if v \<noteq> [] then Some (strip v) else None),
                                     detail_git_remote = git_remote,
                                     detail_error_line = strip error_line,
                                     detail_blame = blame\<rparr>), st4)))))))"

section \<open>An environment for the examples\<close>

text \<open>
  A machine on which nothing is found: no virtual host mentions any path, no directory is
  inside a repository, and no remote is configured (\<open>git config --get\<close> prints nothing and
  exits with status 1). Paths are absolute already, and a relative path is what follows
  the root and its slash.
\<close>

definition bare_env :: env where
  "bare_env =
     \<lparr>sh_grep_l = (\<lambda>pattern dir. []),
      sh_cd = (\<lambda>dir. Cmd True []),
      sh_git_config_remote = (\<lambda>dir. Cmd False []),
      git_rev_parse = (\<lambda>cwd. Exited_nonzero),
      git_blame_porcelain = (\<lambda>cwd n rel_path. Exited_nonzero),
      git_diff = (\<lambda>cwd rel_path. Completed []),
      abspath = (\<lambda>p. p),
      relpath = (\<lambda>p start. drop (Suc (length start)) p),
      getmtime_isoformat = (\<lambda>p. Some ''2025-03-01T09:30:00'')\<rparr>"

text \<open>
  The same machine with a repository at \<open>/srv/app\<close> whose remote is configured and whose
  file \<open>a.php\<close> is committed: what \<open>git blame --porcelain\<close> prints for a line of it.
\<close>

definition repo_env :: env where
  "repo_env =
     bare_env
       \<lparr>sh_git_config_remote := (\<lambda>dir. Cmd True ''git@example.org:team/app.git\<newline>''),
        git_rev_parse := (\<lambda>cwd. Completed ''/srv/app\<newline>''),
        git_blame_porcelain := (\<lambda>cwd n rel_path. Completed
          (''3b18e512dba79e4c8300dd08aeb37f8e728b8dad 10 10 1\<newline>'' @
           ''author Ann\<newline>'' @
           ''author-mail <ann@example.org>\<newline>'' @
           ''summary Fix the parser\<newline>'' @
           ''filename a.php\<newline>'' @
           [CHR 0x09] @ ''foo();\<newline>''))\<rparr>"

text \<open>
  The repository a moment later: the remote has been changed and the line has been
  committed again, by someone else.
\<close>

definition repo_env_later :: env where
  "repo_env_later =
     repo_env
       \<lparr>sh_git_config_remote := (\<lambda>dir. Cmd True ''git@example.org:team/moved.git\<newline>''),
        git_blame_porcelain := (\<lambda>cwd n rel_path. Completed
          (''9fceb02d0ae598e95dc970b74767f19372d61af8 10 10 1\<newline>'' @
           ''author Bob\<newline>'' @
           ''author-mail <bob@example.org>\<newline>'' @
           ''summary Rewrite foo\<newline>'' @
           ''filename a.php\<newline>'' @
           [CHR 0x09] @ ''foo();\<newline>''))\<rparr>"

text \<open>
  The machine after the directory of the repository has been removed: no process can be
  started in it.
\<close>

definition repo_env_removed :: env where
  "repo_env_removed =
     repo_env
       \<lparr>git_rev_parse := (\<lambda>cwd. Not_started),
        git_blame_porcelain := (\<lambda>cwd n rel_path. Not_started),
        git_diff := (\<lambda>cwd rel_path. Not_started)\<rparr>"

text \<open>
  The repository with an uncommitted edit of \<open>a.php\<close>: line 7 of the working tree is new,
  so \<open>git blame\<close> reports the all-zero commit for it and \<open>git diff\<close> shows it as added.
\<close>

definition uncommitted_env :: env where
  "uncommitted_env =
     repo_env
       \<lparr>git_blame_porcelain := (\<lambda>cwd n rel_path. Completed
          (''0000000000000000000000000000000000000000 7 7 1\<newline>'' @
           ''author Not Committed Yet\<newline>'' @
           ''author-mail <not.committed.yet>\<newline>'' @
           ''summary Version of a.php from a.php\<newline>'' @
           ''filename a.php\<newline>'' @
           [CHR 0x09] @ ''foo();\<newline>'')),
        git_diff := (\<lambda>cwd rel_path. Completed
          (''diff --git a/a.php b/a.php\<newline>'' @
           ''index 83db48f..bf269f4 100644\<newline>'' @
           ''--- a/a.php\<newline>'' @
           ''+++ b/a.php\<newline>'' @
           ''@@ -5,3 +5,4 @@\<newline>'' @
           '' a();\<newline>'' @
           '' b();\<newline>'' @
           ''+foo();\<newline>'' @
           '' c();\<newline>''))\<rparr>"

text \<open>A line of a unified diff that belongs to the new file: an added line or a context
  line.\<close>

definition new_file_line :: "string \<Rightarrow> bool" where
  "new_file_line diff_line = (startswith diff_line ''+'' \<or> startswith diff_line '' '')"

section \<open>Properties of the log tailer\<close>

text \<open>
  Fuel is counted in loop iterations. While the next line has not been written the loops
  only sleep; the lemmas below count those iterations, so that each result holds for every
  amount of fuel from a bound on.
\<close>

lemma tailer_all_updated:
  "(st :: tailer)\<lparr>clock := c, pending := p, current_trace := t\<rparr> =
   \<lparr>clock = c, pending = p, current_trace = t\<rparr>"
  by (cases st) simp

lemma scanning_exhausted: "pending st = [] \<Longrightarrow> scanning n st = []"
  by (induction n arbitrary: st) (simp_all add: readline_def sleep_def)

lemma scanning_sleeps:
  "pending st = (a, l) # rest \<Longrightarrow> k = 0 \<or> clock st + 500 * k < a + 500 \<Longrightarrow>
   scanning (k + n) st = scanning n (st\<lparr>clock := clock st + 500 * k\<rparr>)"
proof (induction k arbitrary: st)
  case 0
  then show ?case by simp
next
  case (Suc k)
  from Suc.prems have idle: "clock st < a" by simp
  let ?st = "sleep 500 st"
  have step: "scanning (Suc k + n) st = scanning (k + n) ?st"
    using Suc.prems(1) idle by (simp add: readline_def)
  have "pending ?st = (a, l) # rest" using Suc.prems(1) by (simp add: sleep_def)
  moreover have "k = 0 \<or> clock ?st + 500 * k < a + 500"
    using Suc.prems(2) by (simp add: sleep_def)
  ultimately have "scanning (k + n) ?st = scanning n (?st\<lparr>clock := clock ?st + 500 * k\<rparr>)"
    by (rule Suc.IH)
  with step show ?case by (simp add: sleep_def add.commute add.left_commute)
qed

lemma scanning_reads:
  assumes "l \<noteq> []" "current_trace st = []" "pending st = (a, l) # rest"
  shows "\<exists>k c. k \<le> a div 500 + 1 \<and> a \<le> c \<and> clock st \<le> c \<and>
           (\<forall>n. scanning (Suc k + n) st =
                  collecting n c \<lparr>clock = c, pending = rest, current_trace = [strip l]\<rparr>)"
proof -
  define k where "k = (a - clock st + 499) div 500"
  define c where "c = clock st + 500 * k"
  have grid: "k = 0 \<or> clock st + 500 * k < a + 500" unfolding k_def by (cases "a \<le> clock st") auto
  have kb: "k \<le> a div 500 + 1" unfolding k_def by simp
  have ac: "a \<le> c" unfolding c_def k_def by (cases "a \<le> clock st") auto
  have wait: "scanning (k + n) st = scanning n (st\<lparr>clock := c\<rparr>)" for n
    unfolding c_def using assms(3) grid by (rule scanning_sleeps)
  have rd: "scanning (Suc n) (st\<lparr>clock := c\<rparr>) =
            collecting n c \<lparr>clock = c, pending = rest, current_trace = [strip l]\<rparr>" for n
    using assms ac by (simp add: readline_def Let_def tailer_all_updated)
  have "scanning (Suc k + n) st =
        collecting n c \<lparr>clock = c, pending = rest, current_trace = [strip l]\<rparr>" for n
    using wait [of "Suc n"] rd [of n] by simp
  with kb ac show ?thesis unfolding c_def by (intro exI [of _ k] exI [of _ "clock st + 500 * k"]) simp
qed

lemma collecting_sleeps:
  "pending st = (a, l) # rest \<Longrightarrow> a \<le> start + 2000 \<Longrightarrow>
   k = 0 \<or> clock st + 200 * k < a + 200 \<Longrightarrow>
   collecting (k + n) start st = collecting n start (st\<lparr>clock := clock st + 200 * k\<rparr>)"
proof (induction k arbitrary: st)
  case 0
  then show ?case by simp
next
  case (Suc k)
  from Suc.prems have idle: "clock st < a" by simp
  with Suc.prems(2) have quiet: "\<not> 2000 \<le> clock st - start" by simp
  let ?st = "sleep 200 st"
  have step: "collecting (Suc k + n) start st = collecting (k + n) start ?st"
    using Suc.prems(1) idle quiet by (simp add: readline_def)
  have "pending ?st = (a, l) # rest" using Suc.prems(1) by (simp add: sleep_def)
  moreover have "k = 0 \<or> clock ?st + 200 * k < a + 200"
    using Suc.prems(3) by (simp add: sleep_def)
  ultimately have "collecting (k + n) start ?st =
                   collecting n start (?st\<lparr>clock := clock ?st + 200 * k\<rparr>)"
    using Suc.prems(2) by (intro Suc.IH)
  with step show ?case by (simp add: sleep_def add.commute add.left_commute)
qed

lemma collecting_appends:
  assumes "l \<noteq> []" "pending st = (a, l) # rest" "a \<le> start + 2000" "start \<le> clock st"
  shows "\<exists>k c. k \<le> 10 \<and> a \<le> c \<and> clock st \<le> c \<and>
           (\<forall>n. collecting (Suc k + n) start st =
                  collecting n c \<lparr>clock = c, pending = rest,
                                   current_trace = current_trace st @ [strip l]\<rparr>)"
proof -
  define k where "k = (a - clock st + 199) div 200"
  define c where "c = clock st + 200 * k"
  have grid: "k = 0 \<or> clock st + 200 * k < a + 200" unfolding k_def by (cases "a \<le> clock st") auto
  have kb: "k \<le> 10" unfolding k_def using assms(3,4) by simp
  have ac: "a \<le> c" unfolding c_def k_def by (cases "a \<le> clock st") auto
  have wait: "collecting (k + n) start st = collecting n start (st\<lparr>clock := c\<rparr>)" for n
    unfolding c_def using assms(2,3) grid by (rule collecting_sleeps)
  have rd: "collecting (Suc n) start (st\<lparr>clock := c\<rparr>) =
            collecting n c \<lparr>clock = c, pending = rest,
                             current_trace = current_trace st @ [strip l]\<rparr>" for n
    using assms ac by (simp add: readline_def Let_def tailer_all_updated)
  have "collecting (Suc k + n) start st =
        collecting n c \<lparr>clock = c, pending = rest,
                         current_trace = current_trace st @ [strip l]\<rparr>" for n
    using wait [of "Suc n"] rd [of n] by simp
  with kb ac show ?thesis unfolding c_def by (intro exI [of _ k] exI [of _ "clock st + 200 * k"]) simp
qed

lemma collecting_drains:
  "pending st = [] \<Longrightarrow> k = 0 \<or> clock st + 200 * k < start + 2200 \<Longrightarrow>
   collecting (k + n) start st = collecting n start (st\<lparr>clock := clock st + 200 * k\<rparr>)"
proof (induction k arbitrary: st)
  case 0
  then show ?case by simp
next
  case (Suc k)
  from Suc.prems have quiet: "\<not> 2000 \<le> clock st - start" by simp
  let ?st = "sleep 200 st"
  have step: "collecting (Suc k + n) start st = collecting (k + n) start ?st"
    using Suc.prems(1) quiet by (simp add: readline_def)
  have "pending ?st = []" using Suc.prems(1) by (simp add: sleep_def)
  moreover have "k = 0 \<or> clock ?st + 200 * k < start + 2200"
    using Suc.prems(2) by (simp add: sleep_def)
  ultimately have "collecting (k + n) start ?st =
                   collecting n start (?st\<lparr>clock := clock ?st + 200 * k\<rparr>)"
    by (rule Suc.IH)
  with step show ?case by (simp add: sleep_def add.commute add.left_commute)
qed

lemma collecting_flushes:
  assumes "pending st = []" "start \<le> clock st" "11 \<le> n"
  shows "collecting n start st = [join ''\<newline>'' (current_trace st)]"
proof -
  define k where "k = (start + 2000 - clock st + 199) div 200"
  define c where "c = clock st + 200 * k"
  have grid: "k = 0 \<or> clock st + 200 * k < start + 2200"
    unfolding k_def by (cases "start + 2000 \<le> clock st") auto
  have kb: "k \<le> 10" unfolding k_def using assms(2) by simp
  have late: "start + 2000 \<le> c" unfolding c_def k_def by (cases "start + 2000 \<le> clock st") auto
  have wait: "collecting (k + m) start st = collecting m start (st\<lparr>clock := c\<rparr>)" for m
    unfolding c_def using assms(1) grid by (rule collecting_drains)
  from late have late': "2000 \<le> c - start" by simp
  have fl: "collecting (Suc m) start (st\<lparr>clock := c\<rparr>) = [join ''\<newline>'' (current_trace st)]" for m
    using assms(1) late' by (simp add: readline_def scanning_exhausted)
  from kb assms(3) have "n = k + Suc (n - k - 1)" by simp
  then show ?thesis using wait [of "Suc (n - k - 1)"] fl [of "n - k - 1"] by metis
qed

lemma two_lines_one_trace:
  assumes "l1 \<noteq> []" "l2 \<noteq> []" "a2 < a1 + 2000" "a1 div 500 + 24 \<le> fuel"
  shows "scanning fuel \<lparr>clock = now, pending = [(a1, l1), (a2, l2)], current_trace = []\<rparr> =
         [join ''\<newline>'' [strip l1, strip l2]]"
proof -
  let ?st0 = "\<lparr>clock = now, pending = [(a1, l1), (a2, l2)], current_trace = []\<rparr>"
  obtain k1 c1 where k1: "k1 \<le> a1 div 500 + 1" and c1: "a1 \<le> c1"
    and s1: "\<And>n. scanning (Suc k1 + n) ?st0 =
               collecting n c1 \<lparr>clock = c1, pending = [(a2, l2)], current_trace = [strip l1]\<rparr>"
    using scanning_reads [of l1 ?st0 a1 "[(a2, l2)]"] assms(1) by auto
  let ?st1 = "\<lparr>clock = c1, pending = [(a2, l2)], current_trace = [strip l1]\<rparr>"
  from assms(3) c1 have "a2 \<le> c1 + 2000" by simp
  then obtain k2 c2 where k2: "k2 \<le> 10"
    and s2: "\<And>n. collecting (Suc k2 + n) c1 ?st1 =
               collecting n c2 \<lparr>clock = c2, pending = [], current_trace = [strip l1, strip l2]\<rparr>"
    using collecting_appends [of l2 ?st1 a2 "[]" c1] assms(2) by auto
  let ?st2 = "\<lparr>clock = c2, pending = [], current_trace = [strip l1, strip l2]\<rparr>"
  define m where "m = fuel - (Suc k1 + Suc k2)"
  from k1 k2 assms(4) have fuel: "fuel = Suc k1 + (Suc k2 + m)" and m: "11 \<le> m"
    unfolding m_def by simp_all
  have "scanning fuel ?st0 = collecting (Suc k2 + m) c1 ?st1"
    unfolding fuel by (rule s1)
  also have "\<dots> = collecting m c2 ?st2" by (rule s2)
  also have "\<dots> = [join ''\<newline>'' [strip l1, strip l2]]"
    using collecting_flushes [of ?st2 c2 m] m by simp
  finally show ?thesis .
qed












text \<open>
  Claim C3: while collecting, a line that is written within the two seconds of the quiet
  period is appended to \<open>current_trace\<close> whatever its text, so also when it matches the
  error-start pattern (first conjunct: from any state of the inner loop, at most ten
  sleeps and one read later the line is at the end of \<open>current_trace\<close>); and two lines
  written less than two seconds apart, error-start lines included, are yielded as one
  trace (second conjunct, for every amount of fuel from the bound on).
\<close>

theorem tail_log_merges_error_starts:
  assumes "fs p = Readable_file" and "p \<noteq> []"
    and "l \<noteq> []" and "pending st = (a, l) # rest" and "a \<le> start + 2000" and "start \<le> clock st"
    and "l1 \<noteq> []" and "l2 \<noteq> []" and "a1 \<le> a2" and "a2 < a1 + 2000"
    and "a1 div 500 + 24 \<le> fuel"
  shows "(\<exists>k c. k \<le> 10 \<and>
            (\<forall>n. collecting (Suc k + n) start st =
               collecting n c \<lparr>clock = c, pending = rest,
                                current_trace = current_trace st @ [strip l]\<rparr>)) \<and>
         tail_log fuel (Some p) fs now [(a1, l1), (a2, l2)] =
           Inr [join ''\<newline>'' [strip l1, strip l2]]"
proof -
  have "\<exists>k c. k \<le> 10 \<and>
            (\<forall>n. collecting (Suc k + n) start st =
               collecting n c \<lparr>clock = c, pending = rest,
                                current_trace = current_trace st @ [strip l]\<rparr>)"
    using collecting_appends [OF assms(3-6)] by blast
  moreover have "scanning fuel \<lparr>clock = now, pending = [(a1, l1), (a2, l2)], current_trace = []\<rparr> =
      [join ''\<newline>'' [strip l1, strip l2]]"
    using assms(7,8,10,11) by (rule two_lines_one_trace)
  ultimately show ?thesis using assms(1,2) by (simp add: tail_log_def isfile_def)
qed

theorem tail_log_merges_error_starts_witness:
  "error_start_pattern_search (strip ''PHP Warning: a in /x.php on line 3\<newline>'') \<and>
   error_start_pattern_search (strip ''PHP Notice: b in /y.php on line 4\<newline>'') \<and>
   (\<exists>k c. k \<le> 10 \<and>
      (\<forall>n. collecting (Suc k + n) 100
              \<lparr>clock = 100, pending = [(1900, ''PHP Notice: b in /y.php on line 4\<newline>'')],
               current_trace = [''PHP Warning: a in /x.php on line 3'']\<rparr> =
            collecting n c
              \<lparr>clock = c, pending = [],
               current_trace = [''PHP Warning: a in /x.php on line 3'',
                                ''PHP Notice: b in /y.php on line 4'']\<rparr>)) \<and>
   tail_log 24 (Some ''/var/log/apache2/error.log'') (\<lambda>p. Readable_file) 0
     [(100, ''PHP Warning: a in /x.php on line 3\<newline>''),
      (1900, ''PHP Notice: b in /y.php on line 4\<newline>'')] =
   Inr [''PHP Warning: a in /x.php on line 3\<newline>PHP Notice: b in /y.php on line 4'']"
proof -
  have s1: "strip ''PHP Warning: a in /x.php on line 3\<newline>'' =
            ''PHP Warning: a in /x.php on line 3''" by code_simp
  have s2: "strip ''PHP Notice: b in /y.php on line 4\<newline>'' =
            ''PHP Notice: b in /y.php on line 4''" by code_simp
  have m1: "error_start_pattern_search ''PHP Warning: a in /x.php on line 3''" by code_simp
  have m2: "error_start_pattern_search ''PHP Notice: b in /y.php on line 4''" by code_simp
  show ?thesis
    using tail_log_merges_error_starts [of "\<lambda>p. Readable_file" "''/var/log/apache2/error.log''"
        "''PHP Notice: b in /y.php on line 4\<newline>''"
        "\<lparr>clock = 100, pending = [(1900, ''PHP Notice: b in /y.php on line 4\<newline>'')],
          current_trace = [''PHP Warning: a in /x.php on line 3'']\<rparr>"
        1900 "[]" 100
        "''PHP Warning: a in /x.php on line 3\<newline>''"
        "''PHP Notice: b in /y.php on line 4\<newline>''" 100 1900 24 0]
    unfolding s1 s2 using m1 m2 by simp
qed

text \<open>
  Claim C8: when the log path is missing or unreadable the tailer yields nothing and
  raises nothing. For a path that is no regular file the code does so; for a regular file
  the process may not read, \<open>os.path.isfile\<close> holds, \<open>open\<close> raises \<open>PermissionError\<close>
  and nothing in \<open>tail_log\<close> catches it.
\<close>

theorem tail_log_unreadable_raises:
  "tail_log fuel (Some (c # p)) (\<lambda>q. Unreadable_file) now appended = Inl PermissionError \<and>
   tail_log fuel (Some (c # p)) (\<lambda>q. No_file) now appended = Inr []"
  by (simp add: tail_log_def isfile_def)

section \<open>Properties of the virtual-host walk\<close>

text \<open>
  \<open>dirname\<close> gives a prefix of its argument, so a search path that changes gets
  shorter: the walk makes at most one iteration per character of the first search path.
\<close>

lemma rev_dropWhile_prefix: "\<exists>t. xs = rev (dropWhile P (rev xs)) @ t"
proof -
  have "rev (takeWhile P (rev xs) @ dropWhile P (rev xs)) = xs"
    by (simp only: takeWhile_dropWhile_id rev_rev_ident)
  then have "xs = rev (dropWhile P (rev xs)) @ rev (takeWhile P (rev xs))"
    by (simp only: rev_append)
  then show ?thesis ..
qed

lemma dirname_prefix: "\<exists>t. p = dirname p @ t"
proof -
  let ?head = "rev (dropWhile (\<lambda>c. c \<noteq> CHR ''/'') (rev p))"
  obtain t where t: "p = ?head @ t" using rev_dropWhile_prefix by blast
  obtain u where u: "?head = rev (dropWhile (\<lambda>c. c = CHR ''/'') (rev ?head)) @ u"
    using rev_dropWhile_prefix by blast
  show ?thesis
  proof (cases "?head \<noteq> [] \<and> \<not> list_all (\<lambda>c. c = CHR ''/'') ?head")
    case True
    then have "dirname p = rev (dropWhile (\<lambda>c. c = CHR ''/'') (rev ?head))"
      by (simp add: dirname_def Let_def)
    with t u have "p = dirname p @ (u @ t)" by (metis append.assoc)
    then show ?thesis ..
  next
    case False
    then have "dirname p = ?head" by (auto simp add: dirname_def Let_def)
    with t show ?thesis by metis
  qed
qed

lemma dirname_shorter: "dirname p \<noteq> p \<Longrightarrow> length (dirname p) < length p"
proof -
  assume neq: "dirname p \<noteq> p"
  obtain t where t: "p = dirname p @ t" using dirname_prefix by blast
  with neq have "t \<noteq> []" by auto
  then have "length (dirname p) < length (dirname p @ t)" by simp
  with t show ?thesis by simp
qed

lemma find_vhost_walk_returns: "\<exists>r. find_vhost_walk env vhost_dir search_path = Some r"
proof (induction search_path rule: length_induct)
  case (1 p)
  show ?case
  proof (cases "strip (getoutput (sh_grep_l env p vhost_dir)) \<noteq> []")
    case True
    then show ?thesis by (subst find_vhost_walk.simps) (simp add: Let_def)
  next
    case empty: False
    show ?thesis
    proof (cases "dirname p = p \<or> dirname p = ''/''")
      case True
      with empty show ?thesis by (subst find_vhost_walk.simps) (simp add: Let_def)
    next
      case False
      then have "length (dirname p) < length p" by (simp add: dirname_shorter)
      with 1 obtain r where "find_vhost_walk env vhost_dir (dirname p) = Some r" by blast
      with empty False show ?thesis by (subst find_vhost_walk.simps) (simp add: Let_def)
    qed
  qed
qed

lemma find_vhost_walk_stops:
  "strip (getoutput (sh_grep_l env search_path vhost_dir)) = [] \<Longrightarrow>
   dirname search_path = search_path \<or> dirname search_path = ''/'' \<Longrightarrow>
   find_vhost_walk env vhost_dir search_path = Some None"
  by (subst find_vhost_walk.simps) (simp add: Let_def)

lemma find_vhost_for_path_returns:
  "\<exists>v st'. find_vhost_for_path env st file_path vhost_dir = Some (v, st')"
proof -
  obtain r where "find_vhost_walk env vhost_dir (dirname file_path) = Some r"
    using find_vhost_walk_returns by blast
  then show ?thesis by (simp add: find_vhost_for_path_def split: option.split)
qed

text \<open>
  Claim C9: for every file path the upward walk of the virtual-host resolver ends.
  Whatever the searches print, the loop returns from every search path, so
  \<open>find_vhost_for_path\<close> returns for every file path; and when the search for the
  current path finds nothing and the parent of the path is the path itself or is \<open>/\<close>,
  the loop stops there with the answer \<open>None\<close>.
\<close>

theorem find_vhost_walk_terminates:
  "(\<exists>found_vhost. find_vhost_walk env vhost_dir search_path = Some found_vhost) \<and>
   (\<exists>found_vhost st'.
      find_vhost_for_path env st file_path vhost_dir = Some (found_vhost, st')) \<and>
   (strip (getoutput (sh_grep_l env search_path vhost_dir)) = [] \<and>
    (dirname search_path = search_path \<or> dirname search_path = ''/'') \<longrightarrow>
    find_vhost_walk env vhost_dir search_path = Some None)"
  using find_vhost_walk_returns [of env vhost_dir search_path]
    find_vhost_for_path_returns [of env st file_path vhost_dir]
    find_vhost_walk_stops [of env search_path vhost_dir]
  by blast

theorem find_vhost_walk_terminates_witness:
  "strip (getoutput (sh_grep_l bare_env ''/var'' ''/etc/apache2/sites-enabled'')) = [] \<and>
   dirname ''/var'' = ''/'' \<and>
   find_vhost_walk bare_env ''/etc/apache2/sites-enabled'' ''/var'' = Some None"
proof -
  have g: "strip (getoutput (sh_grep_l bare_env ''/var'' ''/etc/apache2/sites-enabled'')) = []"
    by code_simp
  have d: "dirname ''/var'' = ''/''" by code_simp
  from find_vhost_walk_terminates
         [of bare_env "''/etc/apache2/sites-enabled''" "''/var''" init_watcher "''/var/x''"] g d
  show ?thesis by simp
qed

section \<open>Properties of the diff scan\<close>

lemma startswith_single: "startswith x [c] = (x \<noteq> [] \<and> hd x = c)"
  by (cases x) auto

lemma added_not_header: "startswith l ''+'' \<Longrightarrow> hunk_header_pattern_match l = None"
  by (cases l) (auto simp add: hunk_header_pattern_match_def)

lemma find_diff_line_header:
  "hunk_header_pattern_match h = Some (g1, g2) \<Longrightarrow>
   find_diff_line L (h # rest) cur = find_diff_line L rest (int_of_digits g1)"
  by (simp add: Let_def)

lemma find_diff_line_skip_prefix:
  "find_diff_line L pre cur = None \<Longrightarrow> hunk_header_pattern_match h = Some (g1, g2) \<Longrightarrow>
   find_diff_line L (pre @ h # rest) cur = find_diff_line L rest (int_of_digits g1)"
proof (induction pre arbitrary: cur)
  case Nil
  then show ?case by (simp add: Let_def)
next
  case (Cons x xs)
  show ?case
  proof (cases "hunk_header_pattern_match x")
    case (Some g)
    obtain a b where g: "g = (a, b)" by (cases g)
    from Cons.prems(1) Some g have "find_diff_line L xs (int_of_digits a) = None"
      by (simp add: Let_def)
    then have "find_diff_line L (xs @ h # rest) (int_of_digits a) =
               find_diff_line L rest (int_of_digits g1)"
      using Cons.prems(2) by (rule Cons.IH)
    with Some g show ?thesis by (simp add: Let_def)
  next
    case None
    show ?thesis
    proof (cases "startswith x ''+'' \<or> startswith x ''-'' \<or> startswith x '' ''")
      case True
      with Cons.prems(1) None have neq: "cur \<noteq> L" by (auto simp add: Let_def)
      let ?c = "if \<not> startswith x ''-'' then cur + 1 else cur"
      from Cons.prems(1) None True neq have "find_diff_line L xs ?c = None"
        by (simp add: Let_def)
      then have "find_diff_line L (xs @ h # rest) ?c = find_diff_line L rest (int_of_digits g1)"
        using Cons.prems(2) by (rule Cons.IH)
      with None True neq show ?thesis by (simp add: Let_def)
    next
      case False
      with Cons.prems(1) None have "find_diff_line L xs cur = None" by (simp add: Let_def)
      then have "find_diff_line L (xs @ h # rest) cur = find_diff_line L rest (int_of_digits g1)"
        using Cons.prems(2) by (rule Cons.IH)
      with None False show ?thesis by (simp add: Let_def)
    qed
  qed
qed

lemma find_diff_line_body:
  "\<forall>x\<in>set body. hunk_header_pattern_match x = None \<Longrightarrow>
   cur + length (filter new_file_line body) = L \<Longrightarrow>
   body = [] \<or> new_file_line (last body) \<Longrightarrow>
   find_diff_line L (body @ rest) cur = find_diff_line L rest L"
proof (induction body arbitrary: cur)
  case Nil
  then show ?case by simp
next
  case (Cons x xs)
  from Cons.prems(3) have "new_file_line (last (x # xs))" by simp
  moreover have "last (x # xs) \<in> set (x # xs)" by (rule last_in_set) simp
  ultimately have "filter new_file_line (x # xs) \<noteq> []"
    by (metis filter_empty_conv)
  then have "0 < length (filter new_file_line (x # xs))" by simp
  with Cons.prems(2) have neq: "cur \<noteq> L" by linarith
  from Cons.prems(1) have nohead: "hunk_header_pattern_match x = None" by simp
  let ?c = "if new_file_line x then cur + 1 else cur"
  have step: "find_diff_line L ((x # xs) @ rest) cur = find_diff_line L (xs @ rest) ?c"
    using nohead neq by (auto simp add: Let_def new_file_line_def startswith_single)
  have "\<forall>y\<in>set xs. hunk_header_pattern_match y = None" using Cons.prems(1) by simp
  moreover have "?c + length (filter new_file_line xs) = L"
    using Cons.prems(2) by (cases "new_file_line x") simp_all
  moreover have "xs = [] \<or> new_file_line (last xs)" using Cons.prems(3) by (cases xs) auto
  ultimately have "find_diff_line L (xs @ rest) ?c = find_diff_line L rest L"
    by (rule Cons.IH)
  with step show ?case by simp
qed

text \<open>
  Claim C5, as the specification states it: for a hunk with the header
  \<open>@@ -5,3 +5,4 @@\<close> whose body has the added line \<open>+foo();\<close> at line 7 of the new file,
  the line selected for line 7 is \<open>+foo();\<close>. The scan tests the counter on removed
  lines too, before it decides whether to count the line: in the hunk below \<open>+foo();\<close> is
  line 7 of the new file, the removed line before it is reached with the counter at 7, and
  that removed line is selected.
\<close>

theorem find_diff_line_selects_added_counterexample:
  "hunk_header_pattern_match ''@@ -5,3 +5,4 @@'' = Some (''5'', Some ''4'') \<and>
   find_diff_line 7 [''@@ -5,3 +5,4 @@'', '' a();'', '' b();'', ''-old();'', ''+foo();'', ''+bar();''] 0 =
     Some ''-old();''"
  by code_simp

text \<open>
  Claim C5, amended: the scan takes the counter from each hunk header, adds one for each
  context line and each added line and nothing for a removed line, and selects the first
  context, added or removed line at which the counter equals \<open>line_number\<close>. So when
  nothing before the hunk is selected, and an added line stands at line \<open>line_number\<close> of
  the new file directly after the hunk header or after a context or added line, the
  selected line is exactly that added line; the example after the theorem is the hunk
  \<open>@@ -5,3 +5,4 @@\<close> with \<open>+foo();\<close> at line 7.
\<close>

theorem find_diff_line_selects_added:
  assumes "find_diff_line line_number before current_line = None"
    and "hunk_header_pattern_match header = Some (g1, g2)"
    and "\<forall>x\<in>set body. hunk_header_pattern_match x = None"
    and "int_of_digits g1 + length (filter new_file_line body) = line_number"
    and "body = [] \<or> new_file_line (last body)"
    and "startswith added ''+''"
  shows "find_diff_line line_number (before @ header # body @ added # after) current_line =
         Some added"
proof -
  have "find_diff_line line_number (before @ header # body @ added # after) current_line =
        find_diff_line line_number (body @ added # after) (int_of_digits g1)"
    using assms(1,2) by (rule find_diff_line_skip_prefix)
  also have "\<dots> = find_diff_line line_number (added # after) line_number"
    using assms(3,4,5) by (rule find_diff_line_body)
  also have "\<dots> = Some added"
    using assms(6) added_not_header [OF assms(6)] by (simp add: Let_def)
  finally show ?thesis .
qed

theorem find_diff_line_selects_added_witness:
  "find_diff_line 7
     [''diff --git a/a.php b/a.php'', ''index 83db48f..bf269f4 100644'', ''--- a/a.php'',
      ''+++ b/a.php''] 0 = None \<and>
   hunk_header_pattern_match ''@@ -5,3 +5,4 @@'' = Some (''5'', Some ''4'') \<and>
   int_of_digits ''5'' + length (filter new_file_line ['' a();'', '' b();'']) = 7 \<and>
   find_diff_line 7
     [''diff --git a/a.php b/a.php'', ''index 83db48f..bf269f4 100644'', ''--- a/a.php'',
      ''+++ b/a.php'', ''@@ -5,3 +5,4 @@'', '' a();'', '' b();'', ''+foo();'', '' c();''] 0 =
     Some ''+foo();''"
proof -
  have h1: "find_diff_line 7
     [''diff --git a/a.php b/a.php'', ''index 83db48f..bf269f4 100644'', ''--- a/a.php'',
      ''+++ b/a.php''] 0 = None" by code_simp
  have h2: "hunk_header_pattern_match ''@@ -5,3 +5,4 @@'' = Some (''5'', Some ''4'')"
    by code_simp
  have h3: "\<forall>x\<in>set ['' a();'', '' b();'']. hunk_header_pattern_match x = None"
    by (simp add: hunk_header_pattern_match_def)
  have h4: "int_of_digits ''5'' + length (filter new_file_line ['' a();'', '' b();'']) = 7"
    by code_simp
  have h5: "['' a();'', '' b();''] = [] \<or> new_file_line (last ['' a();'', '' b();''])"
    by (simp add: new_file_line_def)
  have h6: "startswith ''+foo();'' ''+''" by simp
  from find_diff_line_selects_added [OF h1 h2 h3 h4 h5 h6, of "['' c();'']"] h1 h2 h4
  show ?thesis by simp
qed

section \<open>The result of enrichment\<close>

text \<open>
  What \<open>get_project_info\<close> returns, without the caches it leaves: the blame in the
  result is always what \<open>get_git_blame\<close> computes during the call.
\<close>

lemma ttl_lookup_just_set:
  "ttl_lookup now (ttl_setitem now c k v) k = (if 0 < ttl c then Some v else None)"
proof -
  let ?others = "filter (\<lambda>i. fst i \<noteq> k) (filter (\<lambda>i. now < snd (snd i)) (items c))"
  let ?room = "if length ?others < maxsize c then ?others else tl ?others"
  have "set ?room \<subseteq> set ?others" by (cases ?others) auto
  then have "k \<notin> fst ` set ?room" by auto
  then have "map_of ?room k = None" by (simp add: map_of_eq_None_iff)
  then have "map_of (?room @ [(k, v, now + ttl c)]) k = Some (v, now + ttl c)"
    by (simp add: map_add_def)
  then show ?thesis by (simp add: ttl_lookup_def ttl_setitem_def Let_def)
qed

lemma blame_of_fst:
  "fst (blame_of env now st file_path line_number repo_root) =
   get_git_blame env file_path line_number repo_root"
  by (cases "get_git_blame env file_path line_number repo_root")
     (simp_all add: blame_of_def Let_def ttl_lookup_just_set)

lemma find_vhost_for_path_blame_cache:
  "find_vhost_for_path env (st\<lparr>git_blame_cache := c\<rparr>) file_path vhost_dir =
   map_option (\<lambda>(v, s). (v, s\<lparr>git_blame_cache := c\<rparr>))
     (find_vhost_for_path env st file_path vhost_dir)"
  by (simp add: find_vhost_for_path_def split: option.splits)

lemma root_of_blame_cache:
  "root_of env now (st\<lparr>git_blame_cache := c\<rparr>) dir_path =
   (case root_of env now st dir_path of (r, s) \<Rightarrow> (r, s\<lparr>git_blame_cache := c\<rparr>))"
  by (simp add: root_of_def split: option.splits sum.splits)

lemma remote_of_blame_cache:
  "remote_of env now (st\<lparr>git_blame_cache := c\<rparr>) dir_path =
   (case remote_of env now st dir_path of (r, s) \<Rightarrow> (r, s\<lparr>git_blame_cache := c\<rparr>))"
  by (simp add: remote_of_def Let_def split: option.splits)

lemma get_project_info_fst:
  "map_option fst (get_project_info env now st error_line) =
   (case search_in_on_line error_line of
      None \<Rightarrow> Some (Inr None)
    | Some (g1, g2) \<Rightarrow>
        (case find_vhost_for_path env st (strip g1) ''/etc/apache2/sites-enabled'' of
           None \<Rightarrow> None
         | Some (vhost, st1) \<Rightarrow>
             (case root_of env now st1 (abspath env (dirname (strip g1))) of
                (Inl e, st2) \<Rightarrow> Some (Inl e)
              | (Inr repo_root, st2) \<Rightarrow>
                  (case get_git_blame env (strip g1) (int_of_digits g2) repo_root of
                     Inl e \<Rightarrow> Some (Inl e)
                   | Inr blame \<Rightarrow>
                       Some (Inr (Some
                         \<lparr>detail_file = strip g1,
                          detail_line = int_of_digits g2,
                          detail_vhost =
                            (case vhost of
                               None \<Rightarrow> None
                             | Some v \<Rightarrow> if v \<noteq> [] then Some (strip v) else None),
                          detail_git_remote =
                            fst (remote_of env now st2 (abspath env (dirname (strip g1)))),
                          detail_error_line = strip error_line,
                          detail_blame = blame\<rparr>))))))"
proof (cases "search_in_on_line error_line")
  case None
  then show ?thesis by (simp add: get_project_info_def)
next
  case (Some g)
  obtain g1 g2 where g: "g = (g1, g2)" by (cases g)
  show ?thesis
  proof (cases "find_vhost_for_path env st (strip g1) ''/etc/apache2/sites-enabled''")
    case None
    with Some g show ?thesis by (simp add: get_project_info_def Let_def)
  next
    case vh: (Some vs)
    obtain vhost st1 where vs: "vs = (vhost, st1)" by (cases vs)
    obtain r st2 where ro: "root_of env now st1 (abspath env (dirname (strip g1))) = (r, st2)"
      by (cases "root_of env now st1 (abspath env (dirname (strip g1)))")
    show ?thesis
    proof (cases r)
      case (Inl e)
      with Some g vh vs ro show ?thesis by (simp add: get_project_info_def Let_def)
    next
      case (Inr repo_root)
      obtain git_remote st3
        where re: "remote_of env now st2 (abspath env (dirname (strip g1))) = (git_remote, st3)"
        by (cases "remote_of env now st2 (abspath env (dirname (strip g1)))")
      obtain b st4
        where bl: "blame_of env now st3 (strip g1) (int_of_digits g2) repo_root = (b, st4)"
        by (cases "blame_of env now st3 (strip g1) (int_of_digits g2) repo_root")
      have "fst (blame_of env now st3 (strip g1) (int_of_digits g2) repo_root) =
            get_git_blame env (strip g1) (int_of_digits g2) repo_root"
        by (rule blame_of_fst)
      with bl have b: "get_git_blame env (strip g1) (int_of_digits g2) repo_root = b" by simp
      from Some g vh vs ro Inr re bl b show ?thesis
        by (cases b) (simp_all add: get_project_info_def Let_def)
    qed
  qed
qed

lemma get_project_info_ignores_blame_cache:
  "map_option fst (get_project_info env now (st\<lparr>git_blame_cache := c\<rparr>) error_line) =
   map_option fst (get_project_info env now st error_line)"
  unfolding get_project_info_fst
  by (auto simp add: find_vhost_for_path_blame_cache root_of_blame_cache remote_of_blame_cache
      split: option.splits prod.splits sum.splits)

section \<open>Properties of the blame resolver\<close>

lemma parse_blame_line_local:
  "is_local_changes (parse_blame_line b l) = (is_local_changes b \<or> zero_commit_match l)"
  by (simp add: parse_blame_line_def Let_def)

lemma foldl_parse_blame_line_local:
  "is_local_changes (foldl parse_blame_line b ls) =
   (is_local_changes b \<or> list_ex zero_commit_match ls)"
  by (induction ls arbitrary: b) (auto simp add: parse_blame_line_local)

lemma find_diff_line_nonempty: "find_diff_line L ls cur = Some d \<Longrightarrow> d \<noteq> []"
proof (induction ls arbitrary: cur)
  case Nil
  then show ?case by simp
next
  case (Cons x xs)
  then show ?case
    by (auto simp add: Let_def split: option.splits if_splits)
qed

text \<open>
  Claim C4: when a line of the blame output begins with the all-zero commit id (eight
  zeros or more), every \<open>blame\<close> dictionary the resolver returns has \<open>is_local_changes\<close>
  set, and its \<open>summary\<close> is the text built from the last-modified time of the file,
  followed, when the diff scan selects a line, by the separator and that line stripped:
  the summary that \<open>git blame\<close> printed is not in it.
\<close>

theorem get_git_blame_uncommitted:
  assumes "git_blame_porcelain env root line_number (relpath env file_path root) =
             Completed blame_output"
    and "list_ex zero_commit_match (splitlines blame_output)"
    and "get_git_blame env file_path line_number (Some root) = Inr (Some b)"
  shows "is_local_changes b \<and>
         (\<exists>diff_output last_modified.
            git_diff env root (relpath env file_path root) = Completed diff_output \<and>
            getmtime_isoformat env file_path = Some last_modified \<and>
            summary b = Some
              (''[Uncommitted changes] Last modified: '' @ last_modified @
               (case find_diff_line line_number (splitlines diff_output) 0 of
                  None \<Rightarrow> []
                | Some d \<Rightarrow> '' | Diff line: '' @ strip d)))"
proof -
  let ?blame = "foldl parse_blame_line
      \<lparr>author = None, email = None, commit = None, summary = None, is_local_changes = False\<rparr>
      (splitlines blame_output)"
  have loc: "is_local_changes ?blame"
    using assms(2) by (simp add: foldl_parse_blame_line_local)
  from assms(3) have root: "root \<noteq> []" and fnz: "file_path \<noteq> []"
    by (auto simp add: get_git_blame_def split: if_splits)
  from assms(1,3) root fnz loc obtain diff_output last_modified
    where d: "git_diff env root (relpath env file_path root) = Completed diff_output"
      and m: "getmtime_isoformat env file_path = Some last_modified"
    by (auto simp add: get_git_blame_def Let_def split: process.splits option.splits)
  let ?line_diff = "find_diff_line line_number (splitlines diff_output) 0"
  have tail: "(case ?line_diff of None \<Rightarrow> [] | Some d \<Rightarrow> if d \<noteq> [] then '' | Diff line: '' @ strip d else [])
        = (case ?line_diff of None \<Rightarrow> [] | Some d \<Rightarrow> '' | Diff line: '' @ strip d)"
    by (auto split: option.splits dest: find_diff_line_nonempty)
  from assms(1,3) root fnz loc d m
  have b: "b = ?blame\<lparr>summary := Some (''[Uncommitted changes] Last modified: '' @ last_modified @
         (case ?line_diff of None \<Rightarrow> [] | Some d \<Rightarrow> '' | Diff line: '' @ strip d))\<rparr>"
    unfolding tail [symmetric] by (simp add: get_git_blame_def Let_def)
  from b loc d m show ?thesis by simp
qed

theorem get_git_blame_uncommitted_witness:
  "list_ex zero_commit_match
     (splitlines (''0000000000000000000000000000000000000000 7 7 1\<newline>'' @
           ''author Not Committed Yet\<newline>'' @
           ''author-mail <not.committed.yet>\<newline>'' @
           ''summary Version of a.php from a.php\<newline>'' @
           ''filename a.php\<newline>'' @
           [CHR 0x09] @ ''foo();\<newline>'')) \<and>
   get_git_blame uncommitted_env ''/srv/app/a.php'' 7 (Some ''/srv/app'') =
     Inr (Some \<lparr>author = Some ''Not Committed Yet'', email = Some ''not.committed.yet'',
                commit = Some ''00000000'',
                summary = Some
                  ''[Uncommitted changes] Last modified: 2025-03-01T09:30:00 | Diff line: +foo();'',
                is_local_changes = True\<rparr>) \<and>
   is_local_changes
     \<lparr>author = Some ''Not Committed Yet'', email = Some ''not.committed.yet'',
      commit = Some ''00000000'',
      summary = Some
        ''[Uncommitted changes] Last modified: 2025-03-01T09:30:00 | Diff line: +foo();'',
      is_local_changes = True\<rparr>"
proof -
  let ?out = "''0000000000000000000000000000000000000000 7 7 1\<newline>'' @
           ''author Not Committed Yet\<newline>'' @
           ''author-mail <not.committed.yet>\<newline>'' @
           ''summary Version of a.php from a.php\<newline>'' @
           ''filename a.php\<newline>'' @
           [CHR 0x09] @ ''foo();\<newline>''"
  let ?b = "\<lparr>author = Some ''Not Committed Yet'', email = Some ''not.committed.yet'',
      commit = Some ''00000000'',
      summary = Some
        ''[Uncommitted changes] Last modified: 2025-03-01T09:30:00 | Diff line: +foo();'',
      is_local_changes = True\<rparr>"
  have h1: "git_blame_porcelain uncommitted_env ''/srv/app'' 7
              (relpath uncommitted_env ''/srv/app/a.php'' ''/srv/app'') = Completed ?out"
    by (simp add: uncommitted_env_def repo_env_def bare_env_def)
  have h2: "list_ex zero_commit_match (splitlines ?out)" by code_simp
  have h3: "get_git_blame uncommitted_env ''/srv/app/a.php'' 7 (Some ''/srv/app'') =
            Inr (Some ?b)" by code_simp
  from get_git_blame_uncommitted [OF h1 h2 h3] h2 h3 show ?thesis by simp
qed

text \<open>
  What the handler of \<open>get_git_blame\<close> catches: a blame query or a diff query that ends
  with a non-zero exit status gives the result \<open>None\<close>.
\<close>

lemma get_git_blame_nonzero_exit:
  assumes "root \<noteq> []" and "file_path \<noteq> []"
    and "git_blame_porcelain env root line_number (relpath env file_path root) = Exited_nonzero \<or>
         (\<exists>blame_output.
            git_blame_porcelain env root line_number (relpath env file_path root) =
              Completed blame_output \<and>
            list_ex zero_commit_match (splitlines blame_output) \<and>
            git_diff env root (relpath env file_path root) = Exited_nonzero)"
  shows "get_git_blame env file_path line_number (Some root) = Inr None"
  using assms
  by (auto simp add: get_git_blame_def Let_def foldl_parse_blame_line_local)

section \<open>Properties of the repository queries\<close>

text \<open>
  Claim C7: the remote is never absent and is the literal \<open>unknown\<close> when no remote is
  configured or the query fails, while the root is \<open>None\<close> outside a repository. The
  last two conjuncts show the two cases the code handles so. The first shows a failing
  query: \<open>getoutput\<close> collects the standard error of the shell as well, so what a failing
  \<open>git config\<close> prints comes before the \<open>unknown\<close> of \<open>echo\<close> and the result is not
  the literal \<open>unknown\<close>.
\<close>

theorem git_remote_query_leaks_diagnostics:
  "git_remote_query
     (bare_env\<lparr>sh_git_config_remote :=
        (\<lambda>dir. Cmd False ''fatal: bad config line 1 in file /srv/app/.git/config\<newline>'')\<rparr>)
     ''/srv/app'' =
   ''fatal: bad config line 1 in file /srv/app/.git/config\<newline>unknown'' \<and>
   git_remote_query bare_env ''/srv/app'' = ''unknown'' \<and>
   git_root_query bare_env ''/srv/app'' = Inr None"
  by code_simp

section \<open>Properties of enrichment\<close>

text \<open>
  Two calls for the same trace, one minute apart, on a machine whose repository changes in
  between: the first call, and the second call from the caches the first one leaves.
\<close>

lemma repo_call_first:
  "get_project_info repo_env 0 init_watcher ''PHP Fatal error: X in /srv/app/a.php on line 10'' =
   Some (Inr (Some
     \<lparr>detail_file = ''/srv/app/a.php'', detail_line = 10, detail_vhost = None,
      detail_git_remote = ''git@example.org:team/app.git'',
      detail_error_line = ''PHP Fatal error: X in /srv/app/a.php on line 10'',
      detail_blame = Some
        \<lparr>author = Some ''Ann'', email = Some ''ann@example.org'', commit = Some ''3b18e512'',
         summary = Some ''Fix the parser'', is_local_changes = False\<rparr>\<rparr>),
     \<lparr>vhost_cache = [''/srv/app/a.php'' \<mapsto> None],
      git_root_cache = \<lparr>maxsize = 1000, ttl = 86400,
                         items = [(''/srv/app'', Some ''/srv/app'', 86400)]\<rparr>,
      git_remote_cache = \<lparr>maxsize = 1000, ttl = 86400,
                           items = [(''/srv/app'', ''git@example.org:team/app.git'', 86400)]\<rparr>,
      git_blame_cache = \<lparr>maxsize = 5000, ttl = 86400,
                          items = [(''/srv/app/a.php:10'', Some
        \<lparr>author = Some ''Ann'', email = Some ''ann@example.org'', commit = Some ''3b18e512'',
         summary = Some ''Fix the parser'', is_local_changes = False\<rparr>, 86400)]\<rparr>\<rparr>)"
proof -
  have s: "search_in_on_line ''PHP Fatal error: X in /srv/app/a.php on line 10'' =
           Some (''/srv/app/a.php'', ''10'')" by code_simp
  have f: "strip ''/srv/app/a.php'' = ''/srv/app/a.php''" by code_simp
  have n: "int_of_digits ''10'' = 10" by code_simp
  have d: "dirname ''/srv/app/a.php'' = ''/srv/app''" by code_simp
  have w: "find_vhost_walk repo_env ''/etc/apache2/sites-enabled'' ''/srv/app'' = Some None"
    by code_simp
  have k: "str_of_nat 10 = ''10''" by code_simp
  have q1: "git_root_query repo_env ''/srv/app'' = Inr (Some ''/srv/app'')" by code_simp
  have q2: "git_remote_query repo_env ''/srv/app'' = ''git@example.org:team/app.git''"
    by code_simp
  have b: "get_git_blame repo_env ''/srv/app/a.php'' 10 (Some ''/srv/app'') = Inr (Some
        \<lparr>author = Some ''Ann'', email = Some ''ann@example.org'', commit = Some ''3b18e512'',
         summary = Some ''Fix the parser'', is_local_changes = False\<rparr>)" by code_simp
  have e: "strip ''PHP Fatal error: X in /srv/app/a.php on line 10'' =
           ''PHP Fatal error: X in /srv/app/a.php on line 10''" by code_simp
  have a: "abspath repo_env ''/srv/app'' = ''/srv/app''"
    by (simp add: repo_env_def bare_env_def)
  show ?thesis
    unfolding get_project_info_def s
    by (simp add: f n d a find_vhost_for_path_def init_watcher_def w
        root_of_def ttl_lookup_def q1 ttl_setitem_def ttl_touch_def remote_of_def q2 blame_of_def
        b k e Let_def del: str_of_nat.simps)
qed

lemma repo_call_second:
  "map_option fst
     (get_project_info repo_env_later 60
        \<lparr>vhost_cache = [''/srv/app/a.php'' \<mapsto> None],
         git_root_cache = \<lparr>maxsize = 1000, ttl = 86400,
                            items = [(''/srv/app'', Some ''/srv/app'', 86400)]\<rparr>,
         git_remote_cache = \<lparr>maxsize = 1000, ttl = 86400,
                              items = [(''/srv/app'', ''git@example.org:team/app.git'', 86400)]\<rparr>,
         git_blame_cache = \<lparr>maxsize = 5000, ttl = 86400,
                             items = [(''/srv/app/a.php:10'', Some
           \<lparr>author = Some ''Ann'', email = Some ''ann@example.org'', commit = Some ''3b18e512'',
            summary = Some ''Fix the parser'', is_local_changes = False\<rparr>, 86400)]\<rparr>\<rparr>
        ''PHP Fatal error: X in /srv/app/a.php on line 10'') =
   Some (Inr (Some
     \<lparr>detail_file = ''/srv/app/a.php'', detail_line = 10, detail_vhost = None,
      detail_git_remote = ''git@example.org:team/app.git'',
      detail_error_line = ''PHP Fatal error: X in /srv/app/a.php on line 10'',
      detail_blame = Some
        \<lparr>author = Some ''Bob'', email = Some ''bob@example.org'', commit = Some ''9fceb02d'',
         summary = Some ''Rewrite foo'', is_local_changes = False\<rparr>\<rparr>))"
proof -
  have s: "search_in_on_line ''PHP Fatal error: X in /srv/app/a.php on line 10'' =
           Some (''/srv/app/a.php'', ''10'')" by code_simp
  have f: "strip ''/srv/app/a.php'' = ''/srv/app/a.php''" by code_simp
  have n: "int_of_digits ''10'' = 10" by code_simp
  have d: "dirname ''/srv/app/a.php'' = ''/srv/app''" by code_simp
  have b: "get_git_blame repo_env_later ''/srv/app/a.php'' 10 (Some ''/srv/app'') = Inr (Some
        \<lparr>author = Some ''Bob'', email = Some ''bob@example.org'', commit = Some ''9fceb02d'',
         summary = Some ''Rewrite foo'', is_local_changes = False\<rparr>)" by code_simp
  have e: "strip ''PHP Fatal error: X in /srv/app/a.php on line 10'' =
           ''PHP Fatal error: X in /srv/app/a.php on line 10''" by code_simp
  have a: "abspath repo_env_later ''/srv/app'' = ''/srv/app''"
    by (simp add: repo_env_later_def repo_env_def bare_env_def)
  show ?thesis
    unfolding get_project_info_fst s
    by (simp add: f n d a find_vhost_for_path_def root_of_def ttl_lookup_def ttl_touch_def
        remote_of_def b e)
qed

text \<open>
  Claim C6: every failure of the blame query or of the diff query is caught inside the
  resolver and turned into \<open>None\<close>, and no exception leaves the resolver. The handler
  names \<open>CalledProcessError\<close> only. When the \<open>git\<close> process cannot be started,
  \<open>check_output\<close> raises an \<open>OSError\<close>, which leaves \<open>get_git_blame\<close> (first conjunct)
  although its docstring promises \<open>None\<close> when the blame is unavailable. In the second
  conjunct the directory of the repository is removed after the first of the two calls
  above: the root is still in the cache, the blame query cannot be started, and the
  exception leaves \<open>get_project_info\<close>. The last conjunct is the failure the handler does
  catch, a non-zero exit status.
\<close>

theorem get_git_blame_oserror_escapes:
  "get_git_blame repo_env_removed ''/srv/app/a.php'' 10 (Some ''/srv/app'') = Inl OSError \<and>
   (case get_project_info repo_env 0 init_watcher
           ''PHP Fatal error: X in /srv/app/a.php on line 10'' of
      None \<Rightarrow> False
    | Some (first, st1) \<Rightarrow>
        ttl_lookup 60 (git_root_cache st1) ''/srv/app'' = Some (Some ''/srv/app'') \<and>
        map_option fst
          (get_project_info repo_env_removed 60 st1
             ''PHP Fatal error: X in /srv/app/a.php on line 10'') = Some (Inl OSError)) \<and>
   get_git_blame bare_env ''/srv/app/a.php'' 10 (Some ''/srv/app'') = Inr None"
proof -
  have s: "search_in_on_line ''PHP Fatal error: X in /srv/app/a.php on line 10'' =
           Some (''/srv/app/a.php'', ''10'')" by code_simp
  have f: "strip ''/srv/app/a.php'' = ''/srv/app/a.php''" by code_simp
  have n: "int_of_digits ''10'' = 10" by code_simp
  have d: "dirname ''/srv/app/a.php'' = ''/srv/app''" by code_simp
  have b: "get_git_blame repo_env_removed ''/srv/app/a.php'' 10 (Some ''/srv/app'') = Inl OSError"
    by code_simp
  have caught: "get_git_blame bare_env ''/srv/app/a.php'' 10 (Some ''/srv/app'') = Inr None"
    by code_simp
  have a: "abspath repo_env_removed ''/srv/app'' = ''/srv/app''"
    by (simp add: repo_env_removed_def repo_env_def bare_env_def)
  have second: "map_option fst
     (get_project_info repo_env_removed 60
        \<lparr>vhost_cache = [''/srv/app/a.php'' \<mapsto> None],
         git_root_cache = \<lparr>maxsize = 1000, ttl = 86400,
                            items = [(''/srv/app'', Some ''/srv/app'', 86400)]\<rparr>,
         git_remote_cache = \<lparr>maxsize = 1000, ttl = 86400,
                              items = [(''/srv/app'', ''git@example.org:team/app.git'', 86400)]\<rparr>,
         git_blame_cache = \<lparr>maxsize = 5000, ttl = 86400,
                             items = [(''/srv/app/a.php:10'', Some
           \<lparr>author = Some ''Ann'', email = Some ''ann@example.org'', commit = Some ''3b18e512'',
            summary = Some ''Fix the parser'', is_local_changes = False\<rparr>, 86400)]\<rparr>\<rparr>
        ''PHP Fatal error: X in /srv/app/a.php on line 10'') = Some (Inl OSError)"
    unfolding get_project_info_fst s
    by (simp add: f n d a find_vhost_for_path_def root_of_def ttl_lookup_def ttl_touch_def b)
  have cached: "ttl_lookup 60
      \<lparr>maxsize = 1000, ttl = 86400, items = [(''/srv/app'', Some ''/srv/app'', 86400)]\<rparr>
      ''/srv/app'' = Some (Some ''/srv/app'')"
    by (simp add: ttl_lookup_def)
  show ?thesis
    unfolding repo_call_first
    using b caught second cached by simp
qed

text \<open>
  Claim C2: a second call with the same key before the entry expires returns the cached
  value without a new query, for every resolver. \<open>get_project_info\<close> calls
  \<open>get_git_blame\<close> and stores the result before it looks \<open>blame_key\<close> up, so the
  blame cache never spares a query: what the method returns does not depend on the
  content of \<open>git_blame_cache\<close> (first conjunct). In the two calls above the key is in
  the blame cache when the second call starts, and the second call returns the blame the
  repository gives then, while its remote is the cached one (second conjunct).
\<close>

theorem get_project_info_recomputes_blame:
  "map_option fst (get_project_info env now (st\<lparr>git_blame_cache := c\<rparr>) error_line) =
     map_option fst (get_project_info env now st error_line) \<and>
   (case get_project_info repo_env 0 init_watcher
           ''PHP Fatal error: X in /srv/app/a.php on line 10'' of
      None \<Rightarrow> False
    | Some (first, st1) \<Rightarrow>
        ttl_lookup 60 (git_blame_cache st1) ''/srv/app/a.php:10'' = Some (Some
          \<lparr>author = Some ''Ann'', email = Some ''ann@example.org'', commit = Some ''3b18e512'',
           summary = Some ''Fix the parser'', is_local_changes = False\<rparr>) \<and>
        map_option fst
          (get_project_info repo_env_later 60 st1
             ''PHP Fatal error: X in /srv/app/a.php on line 10'') =
        Some (Inr (Some
          \<lparr>detail_file = ''/srv/app/a.php'', detail_line = 10, detail_vhost = None,
           detail_git_remote = ''git@example.org:team/app.git'',
           detail_error_line = ''PHP Fatal error: X in /srv/app/a.php on line 10'',
           detail_blame = Some
             \<lparr>author = Some ''Bob'', email = Some ''bob@example.org'', commit = Some ''9fceb02d'',
              summary = Some ''Rewrite foo'', is_local_changes = False\<rparr>\<rparr>)))"
proof -
  have cached: "ttl_lookup 60
      \<lparr>maxsize = 5000, ttl = 86400,
       items = [(''/srv/app/a.php:10'', Some
           \<lparr>author = Some ''Ann'', email = Some ''ann@example.org'', commit = Some ''3b18e512'',
            summary = Some ''Fix the parser'', is_local_changes = False\<rparr>, 86400)]\<rparr>
      ''/srv/app/a.php:10'' = Some (Some
          \<lparr>author = Some ''Ann'', email = Some ''ann@example.org'', commit = Some ''3b18e512'',
           summary = Some ''Fix the parser'', is_local_changes = False\<rparr>)"
    by (simp add: ttl_lookup_def)
  show ?thesis
    unfolding repo_call_first
    using get_project_info_ignores_blame_cache cached
      repo_call_second
    by simp
qed

text \<open>
  Claim C10: for a trace in which \<open>in <file> on line <N>\<close> is found, the dictionary
  that \<open>get_project_info\<close> returns has, besides \<open>file\<close>, \<open>line\<close>, \<open>vhost\<close>,
  \<open>git_remote\<close> and \<open>blame\<close>, the key \<open>error_line\<close> holding the whole trace stripped
  of surrounding whitespace; \<open>file\<close> and \<open>line\<close> are the two groups of the match.
\<close>

theorem get_project_info_error_line:
  assumes "search_in_on_line error_line = Some (g1, g2)"
    and "map_option fst (get_project_info env now st error_line) = Some (Inr r)"
  shows "\<exists>d. r = Some d \<and> detail_error_line d = strip error_line \<and>
             detail_file d = strip g1 \<and> detail_line d = int_of_digits g2"
  using assms
  by (auto simp add: get_project_info_fst split: option.splits prod.splits sum.splits)

theorem get_project_info_error_line_witness:
  "search_in_on_line ''  PHP Fatal error: X in /srv/app/a.php on line 10 '' =
     Some (''/srv/app/a.php'', ''10'') \<and>
   map_option fst
     (get_project_info repo_env 0 init_watcher
        ''  PHP Fatal error: X in /srv/app/a.php on line 10 '') =
   Some (Inr (Some
     \<lparr>detail_file = ''/srv/app/a.php'', detail_line = 10, detail_vhost = None,
      detail_git_remote = ''git@example.org:team/app.git'',
      detail_error_line = ''PHP Fatal error: X in /srv/app/a.php on line 10'',
      detail_blame = Some
        \<lparr>author = Some ''Ann'', email = Some ''ann@example.org'', commit = Some ''3b18e512'',
         summary = Some ''Fix the parser'', is_local_changes = False\<rparr>\<rparr>)) \<and>
   strip ''  PHP Fatal error: X in /srv/app/a.php on line 10 '' =
     ''PHP Fatal error: X in /srv/app/a.php on line 10''"
proof -
  have s: "search_in_on_line ''  PHP Fatal error: X in /srv/app/a.php on line 10 '' =
           Some (''/srv/app/a.php'', ''10'')" by code_simp
  have f: "strip ''/srv/app/a.php'' = ''/srv/app/a.php''" by code_simp
  have n: "int_of_digits ''10'' = 10" by code_simp
  have d: "dirname ''/srv/app/a.php'' = ''/srv/app''" by code_simp
  have w: "find_vhost_walk repo_env ''/etc/apache2/sites-enabled'' ''/srv/app'' = Some None"
    by code_simp
  have q1: "git_root_query repo_env ''/srv/app'' = Inr (Some ''/srv/app'')" by code_simp
  have q2: "git_remote_query repo_env ''/srv/app'' = ''git@example.org:team/app.git''"
    by code_simp
  have b: "get_git_blame repo_env ''/srv/app/a.php'' 10 (Some ''/srv/app'') = Inr (Some
        \<lparr>author = Some ''Ann'', email = Some ''ann@example.org'', commit = Some ''3b18e512'',
         summary = Some ''Fix the parser'', is_local_changes = False\<rparr>)" by code_simp
  have e: "strip ''  PHP Fatal error: X in /srv/app/a.php on line 10 '' =
           ''PHP Fatal error: X in /srv/app/a.php on line 10''" by code_simp
  have a: "abspath repo_env ''/srv/app'' = ''/srv/app''"
    by (simp add: repo_env_def bare_env_def)
  have v: "map_option fst
     (get_project_info repo_env 0 init_watcher
        ''  PHP Fatal error: X in /srv/app/a.php on line 10 '') =
   Some (Inr (Some
     \<lparr>detail_file = ''/srv/app/a.php'', detail_line = 10, detail_vhost = None,
      detail_git_remote = ''git@example.org:team/app.git'',
      detail_error_line = ''PHP Fatal error: X in /srv/app/a.php on line 10'',
      detail_blame = Some
        \<lparr>author = Some ''Ann'', email = Some ''ann@example.org'', commit = Some ''3b18e512'',
         summary = Some ''Fix the parser'', is_local_changes = False\<rparr>\<rparr>))"
    unfolding get_project_info_fst s
    by (simp add: f n d a find_vhost_for_path_def init_watcher_def w root_of_def ttl_lookup_def
        q1 ttl_setitem_def remote_of_def q2 b e Let_def)
  from get_project_info_error_line [OF s v] s v e show ?thesis by simp
qed

end
